theory Spec2Isabelle
  imports Complex_Main "HOL-Library.Sublist" "HOL-Library.Char_ord" "HOL-Library.List_Lexorder"
    "HOL-Library.Multiset"
begin

section \<open>The fact table of \<^verbatim>\<open>app.py\<close>\<close>

text \<open>
  \<^verbatim>\<open>load_sales_data\<close> returns one row per sale-order line, with the columns of its
  \<^verbatim>\<open>SELECT\<close>. A data frame is the list of its rows, in row order. Dates come from
  \<^verbatim>\<open>so.date_order::date\<close> and are compared as timestamps at midnight: a date is its
  day number. The two columns reached through a \<^verbatim>\<open>LEFT JOIN\<close> (\<^verbatim>\<open>salesperson\<close>,
  \<^verbatim>\<open>category\<close>) may be null. Amounts are exact rationals: the rounding of the
  floating-point columns of pandas is not modelled.
\<close>

record order_line =
  order_id :: int
  order_number :: string
  order_date :: int
  state :: string
  customer :: string
  salesperson :: "string option"
  product_uom_qty :: rat
  price_total :: rat
  product :: string
  category :: "string option"

text \<open>
  The sidebar: two \<^verbatim>\<open>date_input\<close> values and three \<^verbatim>\<open>multiselect\<close> lists.
\<close>

record criteria =
  start_date :: int
  end_date :: int
  salesperson_selected :: "string list"
  customer_selected :: "string list"
  category_selected :: "string list"

datatype error = ValueError | IndexError | ZeroDivisionError

subsection \<open>Filtering (lines 66 to 81)\<close>

text \<open>
  \<^verbatim>\<open>Series.isin(values)\<close>: a null cell is in no list of strings.
\<close>

definition isin :: "string \<Rightarrow> string list \<Rightarrow> bool" where
  "isin v vals = (v \<in> set vals)"

definition isin_null :: "string option \<Rightarrow> string list \<Rightarrow> bool" where
  "isin_null v vals = (case v of None \<Rightarrow> False | Some s \<Rightarrow> s \<in> set vals)"

definition date_mask :: "criteria \<Rightarrow> order_line \<Rightarrow> bool" where
  "date_mask c r = (order_date r \<ge> start_date c \<and> order_date r \<le> end_date c)"

definition filtered_df :: "criteria \<Rightarrow> order_line list \<Rightarrow> order_line list" where
  "filtered_df c df =
     (let f0 = filter (date_mask c) df;
          f1 = (if salesperson_selected c \<noteq> []
                then filter (\<lambda>r. isin_null (salesperson r) (salesperson_selected c)) f0
                else f0);
          f2 = (if customer_selected c \<noteq> []
                then filter (\<lambda>r. isin (customer r) (customer_selected c)) f1
                else f1);
          f3 = (if category_selected c \<noteq> []
                then filter (\<lambda>r. isin_null (category r) (category_selected c)) f2
                else f2)
      in f3)"

text \<open>
  \<^verbatim>\<open>app_old.py\<close>, lines 92 to 100: the date mask and the salesperson selection only.
\<close>

definition filtered_df_old :: "criteria \<Rightarrow> order_line list \<Rightarrow> order_line list" where
  "filtered_df_old c df =
     (let f0 = filter (date_mask c) df
      in if salesperson_selected c \<noteq> []
         then filter (\<lambda>r. isin_null (salesperson r) (salesperson_selected c)) f0
         else f0)"

text \<open>
  The filter as the specification words it: one predicate per row, the conjunction of the
  date window and of every restriction whose selection is not empty.
\<close>

definition spec_passes :: "criteria \<Rightarrow> order_line \<Rightarrow> bool" where
  "spec_passes c r =
     (start_date c \<le> order_date r \<and> order_date r \<le> end_date c
      \<and> (salesperson_selected c \<noteq> [] \<longrightarrow>
           (\<exists>s \<in> set (salesperson_selected c). salesperson r = Some s))
      \<and> (customer_selected c \<noteq> [] \<longrightarrow> customer r \<in> set (customer_selected c))
      \<and> (category_selected c \<noteq> [] \<longrightarrow>
           (\<exists>s \<in> set (category_selected c). category r = Some s)))"

subsection \<open>KPI metrics (lines 92 to 96)\<close>

text \<open>
  \<^verbatim>\<open>Series.sum()\<close> is 0 on an empty column; \<^verbatim>\<open>Series.nunique()\<close> counts the
  distinct values.
\<close>

definition nunique :: "'a list \<Rightarrow> nat" where
  "nunique xs = length (remdups xs)"

definition total_sales :: "order_line list \<Rightarrow> rat" where
  "total_sales fdf = sum_list (map price_total fdf)"

definition total_orders :: "order_line list \<Rightarrow> nat" where
  "total_orders fdf = nunique (map order_number fdf)"

text \<open>
  The division of line 94, with a zero divisor made a fault of its own so that reaching
  it is visible in the result.
\<close>

definition truediv :: "rat \<Rightarrow> nat \<Rightarrow> error + rat" where
  "truediv a n = (if n = 0 then Inl ZeroDivisionError else Inr (a / of_nat n))"

definition avg_order_value :: "order_line list \<Rightarrow> error + rat" where
  "avg_order_value fdf =
     (if total_orders fdf \<noteq> 0 then truediv (total_sales fdf) (total_orders fdf) else Inr 0)"

definition total_customers :: "order_line list \<Rightarrow> nat" where
  "total_customers fdf = nunique (map customer fdf)"

subsection \<open>Grouping and sorting\<close>

text \<open>
  \<^verbatim>\<open>df.groupby(key)[col].agg()\<close> with the defaults of pandas (\<^verbatim>\<open>sort=True\<close>,
  \<^verbatim>\<open>dropna=True\<close>): one entry per distinct key, in ascending key order, whatever the
  order of the rows; the aggregate is taken over the rows of the group in row order. Rows
  with a null key belong to no group.
\<close>

definition groupby :: "('r \<Rightarrow> 'k::linorder) \<Rightarrow> ('r list \<Rightarrow> 'v) \<Rightarrow> 'r list \<Rightarrow> ('k \<times> 'v) list" where
  "groupby key agg rows =
     map (\<lambda>k. (k, agg (filter (\<lambda>r. key r = k) rows))) (sort (remdups (map key rows)))"

definition groupby_dropna ::
    "('r \<Rightarrow> 'k::linorder option) \<Rightarrow> ('r list \<Rightarrow> 'v) \<Rightarrow> 'r list \<Rightarrow> ('k \<times> 'v) list" where
  "groupby_dropna key agg rows =
     map (\<lambda>k. (k, agg (filter (\<lambda>r. key r = Some k) rows)))
       (sort (remdups (List.map_filter key rows)))"

definition sum_price_total :: "order_line list \<Rightarrow> rat" where
  "sum_price_total g = sum_list (map price_total g)"

text \<open>
  \<^verbatim>\<open>sort_values\<close> orders through \<^verbatim>\<open>nargsort\<close> of pandas: ascending, it is an argsort of
  the values; descending, the values are reversed, argsorted ascending, and the resulting
  order is reversed again. The page calls it with the default \<^verbatim>\<open>kind\<close>, for which numpy
  promises no particular order among equal values. The model takes the insertion sort that
  numpy runs on short arrays, which keeps equal values in the order they come in; numpy's
  partitioning of longer arrays is not modelled, and no result below about a claim rests
  on the order the model gives to equal values.
\<close>

definition sort_values :: "('a \<Rightarrow> 'v::linorder) \<Rightarrow> 'a list \<Rightarrow> 'a list" where
  "sort_values col xs = sort_key col xs"

definition sort_values_desc :: "('a \<Rightarrow> 'v::linorder) \<Rightarrow> 'a list \<Rightarrow> 'a list" where
  "sort_values_desc col xs = rev (sort_key col (rev xs))"

text \<open>\<^verbatim>\<open>head(10)\<close> keeps the first ten rows.\<close>

definition head :: "nat \<Rightarrow> 'a list \<Rightarrow> 'a list" where
  "head n xs = take n xs"

subsection \<open>Rankings and breakdowns (lines 109, 126, 134, 142, 150)\<close>

definition daily_sales :: "order_line list \<Rightarrow> (int \<times> rat) list" where
  "daily_sales fdf = groupby order_date sum_price_total fdf"

definition top_customers :: "order_line list \<Rightarrow> (string \<times> rat) list" where
  "top_customers fdf = head 10 (sort_values_desc snd (groupby customer sum_price_total fdf))"

definition top_products :: "order_line list \<Rightarrow> (string \<times> rat) list" where
  "top_products fdf = head 10 (sort_values_desc snd (groupby product sum_price_total fdf))"

definition category_sales :: "order_line list \<Rightarrow> (string \<times> rat) list" where
  "category_sales fdf = groupby_dropna category sum_price_total fdf"

definition salesperson_perf :: "order_line list \<Rightarrow> (string \<times> rat) list" where
  "salesperson_perf fdf = sort_values_desc snd (groupby_dropna salesperson sum_price_total fdf)"

subsection \<open>New customers (line 96)\<close>

text \<open>
  \<^verbatim>\<open>Series.min()\<close>: the least value, null (\<^verbatim>\<open>NaT\<close>) on an empty column; a comparison
  with \<^verbatim>\<open>NaT\<close> is false. The sum of a boolean column counts its true entries.
\<close>

definition series_min :: "int list \<Rightarrow> int option" where
  "series_min xs = (case xs of [] \<Rightarrow> None | x # ys \<Rightarrow> Some (fold min ys x))"

definition series_max :: "int list \<Rightarrow> int option" where
  "series_max xs = (case xs of [] \<Rightarrow> None | x # ys \<Rightarrow> Some (fold max ys x))"

definition ge_date :: "int option \<Rightarrow> int \<Rightarrow> bool" where
  "ge_date m d = (case m of None \<Rightarrow> False | Some x \<Rightarrow> x \<ge> d)"

definition new_customers :: "criteria \<Rightarrow> order_line list \<Rightarrow> nat" where
  "new_customers c fdf =
     length (filter (\<lambda>(k, m). ge_date m (start_date c))
       (groupby customer (\<lambda>g. series_min (map order_date g)) fdf))"

text \<open>
  The count the specification describes: the customers of the filtered set none of whose
  rows in the whole fact table is dated before the start of the window.
\<close>

definition spec_new_customers :: "criteria \<Rightarrow> order_line list \<Rightarrow> nat" where
  "spec_new_customers c df =
     length (filter (\<lambda>k. \<forall>r \<in> set df. customer r = k \<longrightarrow> start_date c \<le> order_date r)
       (remdups (map customer (filtered_df c df))))"

subsection \<open>Sales funnel (lines 158 to 161)\<close>

definition stage_order :: "string list" where
  "stage_order = [''draft'', ''sent'', ''sale'', ''done'', ''cancel'']"

text \<open>
  \<^verbatim>\<open>pd.Categorical(values, categories, ordered=True)\<close>: a value outside the categories
  becomes null; the values order by the position of their category, nulls last.
\<close>

fun index_of :: "'a list \<Rightarrow> 'a \<Rightarrow> nat" where
  "index_of [] v = 0"
| "index_of (x # xs) v = (if x = v then 0 else Suc (index_of xs v))"

definition categorical :: "string list \<Rightarrow> string \<Rightarrow> string option" where
  "categorical cats v = (if v \<in> set cats then Some v else None)"

definition category_code :: "string list \<Rightarrow> string option \<Rightarrow> nat" where
  "category_code cats v = (case v of None \<Rightarrow> length cats | Some s \<Rightarrow> index_of cats s)"

definition funnel_df :: "order_line list \<Rightarrow> (string option \<times> nat) list" where
  "funnel_df fdf =
     (let counts = groupby state (\<lambda>g. nunique (map order_id g)) fdf;
          cat = map (\<lambda>(s, n). (categorical stage_order s, n)) counts
      in sort_values (\<lambda>(s, n). category_code stage_order s) cat)"

subsection \<open>Forecast (lines 179 to 188)\<close>

text \<open>
  \<^verbatim>\<open>day_number\<close> is the offset in days of each grouped date from the least one.
\<close>

definition day_number :: "(int \<times> rat) list \<Rightarrow> int list" where
  "day_number ds =
     (case series_min (map fst ds) of
        None \<Rightarrow> []
      | Some m \<Rightarrow> map (\<lambda>(d, s). d - m) ds)"

text \<open>
  \<^verbatim>\<open>LinearRegression().fit(X, y)\<close> of scikit-learn with one feature: it refuses an empty
  sample (and columns of different lengths) with a \<^verbatim>\<open>ValueError\<close>; otherwise it centres
  both columns and solves the least-squares problem, taking the solution of least norm
  (slope 0) when every centred \<open>x\<close> is 0. The result is the pair of \<^verbatim>\<open>intercept_\<close> and
  \<^verbatim>\<open>coef_\<close>. scikit-learn computes in binary floating point; the model computes the
  same formulas exactly. The two agree on the empty sample, which is refused, and on a
  single observation, where every step is exact (the centred \<open>x\<close> is 0, the slope 0 and the
  intercept the observed value): those are the cases the results below use. With two
  observations or more the values of the code differ from the exact ones by rounding, and
  nothing is stated about them.
\<close>

definition mean :: "rat list \<Rightarrow> rat" where
  "mean xs = sum_list xs / of_nat (length xs)"

definition fit :: "int list \<Rightarrow> rat list \<Rightarrow> error + (rat \<times> rat)" where
  "fit X y =
     (if X = [] \<or> length X \<noteq> length y then Inl ValueError
      else
        let xs = map of_int X;
            X_offset = mean xs;
            y_offset = mean y;
            xc = map (\<lambda>x. x - X_offset) xs;
            yc = map (\<lambda>v. v - y_offset) y;
            sxx = sum_list (map (\<lambda>u. u * u) xc);
            sxy = sum_list (map (\<lambda>(u, v). u * v) (zip xc yc));
            coef = (if sxx = 0 then 0 else sxy / sxx)
        in Inr (y_offset - coef * X_offset, coef))"

definition predict :: "rat \<times> rat \<Rightarrow> int list \<Rightarrow> rat list" where
  "predict m days = map (\<lambda>d. fst m + snd m * of_int d) days"

text \<open>
  \<^verbatim>\<open>np.arange(X[-1][0]+1, X[-1][0]+31)\<close>: indexing the last row of an empty array raises.
\<close>

definition future_days :: "int list \<Rightarrow> error + int list" where
  "future_days X = (if X = [] then Inl IndexError else Inr [last X + 1 .. last X + 30])"

text \<open>
  \<^verbatim>\<open>pd.date_range(max + 1 day, periods=30)\<close>; a null start is refused.
\<close>

definition forecast_dates :: "(int \<times> rat) list \<Rightarrow> error + int list" where
  "forecast_dates ds =
     (case series_max (map fst ds) of
        None \<Rightarrow> Inl ValueError
      | Some m \<Rightarrow> Inr [m + 1 .. m + 30])"

record forecast_result =
  model :: "rat \<times> rat"
  days :: "int list"
  forecast_df :: "(int \<times> rat) list"

definition forecast :: "order_line list \<Rightarrow> error + forecast_result" where
  "forecast fdf =
     (let daily_sales_forecast = groupby order_date sum_price_total fdf;
          X = day_number daily_sales_forecast;
          y = map snd daily_sales_forecast
      in case fit X y of
           Inl e \<Rightarrow> Inl e
         | Inr m \<Rightarrow>
             (case future_days X of
                Inl e \<Rightarrow> Inl e
              | Inr fd \<Rightarrow>
                  (case forecast_dates daily_sales_forecast of
                     Inl e \<Rightarrow> Inl e
                   | Inr dates \<Rightarrow>
                       Inr \<lparr> model = m, days = fd, forecast_df = zip dates (predict m fd) \<rparr>)))"

subsection \<open>One render of the page\<close>

text \<open>
  The script runs top to bottom; an exception ends the render. The rolling mean and the
  calendar resampling feed charts only and are left out.
\<close>

record page =
  kpi_total_sales :: rat
  kpi_total_orders :: nat
  kpi_avg_order_value :: rat
  kpi_total_customers :: nat
  kpi_new_customers :: nat
  page_daily_sales :: "(int \<times> rat) list"
  page_top_customers :: "(string \<times> rat) list"
  page_top_products :: "(string \<times> rat) list"
  page_category_sales :: "(string \<times> rat) list"
  page_salesperson_perf :: "(string \<times> rat) list"
  page_funnel :: "(string option \<times> nat) list"
  page_forecast :: forecast_result

definition render :: "criteria \<Rightarrow> order_line list \<Rightarrow> error + page" where
  "render c df =
     (let fdf = filtered_df c df
      in case avg_order_value fdf of
           Inl e \<Rightarrow> Inl e
         | Inr aov \<Rightarrow>
             (case forecast fdf of
                Inl e \<Rightarrow> Inl e
              | Inr fc \<Rightarrow>
                  Inr \<lparr> kpi_total_sales = total_sales fdf,
                        kpi_total_orders = total_orders fdf,
                        kpi_avg_order_value = aov,
                        kpi_total_customers = total_customers fdf,
                        kpi_new_customers = new_customers c fdf,
                        page_daily_sales = daily_sales fdf,
                        page_top_customers = top_customers fdf,
                        page_top_products = top_products fdf,
                        page_category_sales = category_sales fdf,
                        page_salesperson_perf = salesperson_perf fdf,
                        page_funnel = funnel_df fdf,
                        page_forecast = fc \<rparr>))"

subsection \<open>Statements about the rankings\<close>




subsection \<open>Statements about the forecast\<close>

text \<open>
  The observations of the regression as the specification describes them: the distinct
  order dates in ascending order, each with its offset in days from the earliest date and
  with the sum of its rows; and the offset of the latest date.
\<close>

definition spec_dates :: "order_line list \<Rightarrow> int list" where
  "spec_dates fdf = sort (remdups (map order_date fdf))"

definition spec_day_index :: "order_line list \<Rightarrow> int \<Rightarrow> int" where
  "spec_day_index fdf d = d - Min (order_date ` set fdf)"

definition spec_daily_sum :: "order_line list \<Rightarrow> int \<Rightarrow> rat" where
  "spec_daily_sum fdf d = sum_list (map price_total (filter (\<lambda>r. order_date r = d) fdf))"

definition spec_last_index :: "order_line list \<Rightarrow> int" where
  "spec_last_index fdf = Max (order_date ` set fdf) - Min (order_date ` set fdf)"


subsection \<open>CSV export (line 215)\<close>

text \<open>
  \<^verbatim>\<open>filtered_df.to_csv(index=False)\<close>: a header line with the column names of the frame
  (the order of the \<^verbatim>\<open>SELECT\<close>), then one line per row, without the index. Every cell is
  first turned into text: an integer in decimal, a null as the empty text (\<^verbatim>\<open>na_rep\<close>), a
  string as it is. How pandas prints a date and a floating-point number is not modelled:
  the two renderings are parameters.
\<close>

definition COMMA :: char where "COMMA = CHR 0x2C"
definition DQUOTE :: char where "DQUOTE = CHR 0x22"
definition LF :: char where "LF = CHR 0x0A"
definition CR :: char where "CR = CHR 0x0D"

fun str_nat :: "nat \<Rightarrow> string" where
  "str_nat n =
     (if n < 10 then [char_of (48 + n)]
      else str_nat (n div 10) @ [char_of (48 + n mod 10)])"

declare str_nat.simps [simp del]

definition str_int :: "int \<Rightarrow> string" where
  "str_int i = (if i < 0 then CHR ''-'' # str_nat (nat (- i)) else str_nat (nat i))"

record formatter =
  str_date :: "int \<Rightarrow> string"
  str_float :: "rat \<Rightarrow> string"

definition na_rep :: "string option \<Rightarrow> string" where
  "na_rep v = (case v of None \<Rightarrow> [] | Some s \<Rightarrow> s)"

definition columns :: "string list" where
  "columns = [''order_id'', ''order_number'', ''order_date'', ''state'', ''customer'',
     ''salesperson'', ''product_uom_qty'', ''price_total'', ''product'', ''category'']"

definition cells :: "formatter \<Rightarrow> order_line \<Rightarrow> string list" where
  "cells fmt r =
     [str_int (order_id r), order_number r, str_date fmt (order_date r), state r,
      customer r, na_rep (salesperson r), str_float fmt (product_uom_qty r),
      str_float fmt (price_total r), product r, na_rep (category r)]"

text \<open>
  The lines are written by the \<^verbatim>\<open>csv\<close> writer of Python with the settings pandas passes:
  comma as delimiter, minimal quoting, quotes doubled, line feed as line terminator. A
  cell is quoted when it holds the delimiter, the quote character, a line feed or a
  carriage return.
\<close>

definition needs_quote :: "string \<Rightarrow> bool" where
  "needs_quote f = list_ex (\<lambda>c. c = COMMA \<or> c = DQUOTE \<or> c = LF \<or> c = CR) f"

fun escape :: "string \<Rightarrow> string" where
  "escape [] = []"
| "escape (c # cs) = (if c = DQUOTE then DQUOTE # DQUOTE # escape cs else c # escape cs)"

definition quote_field :: "string \<Rightarrow> string" where
  "quote_field f = (if needs_quote f then DQUOTE # escape f @ [DQUOTE] else f)"

fun write_row :: "string list \<Rightarrow> string" where
  "write_row [] = [LF]"
| "write_row [f] = quote_field f @ [LF]"
| "write_row (f # g # fs) = quote_field f @ COMMA # write_row (g # fs)"

definition to_csv :: "formatter \<Rightarrow> order_line list \<Rightarrow> string" where
  "to_csv fmt fdf = concat (map write_row (columns # map (cells fmt) fdf))"

text \<open>
  Modelled from the spec: the reader that parses the export again. The repository only
  writes the file; the specification speaks of re-parsing it. The reader below is the one
  for the dialect written: the automaton of the \<^verbatim>\<open>csv\<close> reader of Python (start of record,
  start of field, in a field, in a quoted field, after a quote in a quoted field), with
  comma, double quote and line feed as the only special characters (a carriage return
  reaches it inside quotes only, where it is data). It returns every cell as text.
\<close>

datatype mode = StartRecord | StartField | InField | InQuoted | QuoteInQuoted

fun reader :: "mode \<Rightarrow> string \<Rightarrow> string list \<Rightarrow> string \<Rightarrow> string list list" where
  "reader m cur row [] = (if m = StartRecord then [] else [rev (rev cur # row)])"
| "reader StartRecord cur row (c # cs) =
     (if c = LF then [] # reader StartRecord [] [] cs
      else if c = DQUOTE then reader InQuoted [] [] cs
      else if c = COMMA then reader StartField [] [[]] cs
      else reader InField [c] [] cs)"
| "reader StartField cur row (c # cs) =
     (if c = LF then rev ([] # row) # reader StartRecord [] [] cs
      else if c = DQUOTE then reader InQuoted [] row cs
      else if c = COMMA then reader StartField [] ([] # row) cs
      else reader InField [c] row cs)"
| "reader InField cur row (c # cs) =
     (if c = LF then rev (rev cur # row) # reader StartRecord [] [] cs
      else if c = COMMA then reader StartField [] (rev cur # row) cs
      else reader InField (c # cur) row cs)"
| "reader InQuoted cur row (c # cs) =
     (if c = DQUOTE then reader QuoteInQuoted cur row cs
      else reader InQuoted (c # cur) row cs)"
| "reader QuoteInQuoted cur row (c # cs) =
     (if c = DQUOTE then reader InQuoted (c # cur) row cs
      else if c = COMMA then reader StartField [] (rev cur # row) cs
      else if c = LF then rev (rev cur # row) # reader StartRecord [] [] cs
      else reader InField (c # cur) row cs)"

definition read_csv :: "string \<Rightarrow> string list list" where
  "read_csv s = reader StartRecord [] [] s"

section \<open>Example data\<close>

text \<open>
  Small fact tables and sidebar settings on which the results below are evaluated.
\<close>

definition fact ::
    "int \<Rightarrow> string \<Rightarrow> int \<Rightarrow> string \<Rightarrow> string \<Rightarrow> string option \<Rightarrow> rat \<Rightarrow> string
     \<Rightarrow> string option \<Rightarrow> order_line" where
  "fact oid num d st cust sp amount prd cat =
     \<lparr> order_id = oid, order_number = num, order_date = d, state = st, customer = cust,
       salesperson = sp, product_uom_qty = 1, price_total = amount, product = prd,
       category = cat \<rparr>"

definition window :: "int \<Rightarrow> int \<Rightarrow> criteria" where
  "window a b =
     \<lparr> start_date = a, end_date = b, salesperson_selected = [], customer_selected = [],
       category_selected = [] \<rparr>"

text \<open>
  Customer A on days 0, 1 and 2 (10, 20 and 30), customer B on day 1 (5).
\<close>

definition scenario_facts :: "order_line list" where
  "scenario_facts =
     [fact 1 ''S1'' 0 ''sale'' ''A'' (Some ''u1'') 10 ''p1'' (Some ''c1''),
      fact 2 ''S2'' 1 ''draft'' ''A'' None 20 ''p2'' None,
      fact 3 ''S3'' 2 ''sale'' ''A'' (Some ''u1'') 30 ''p1'' (Some ''c1''),
      fact 4 ''S4'' 1 ''sale'' ''B'' (Some ''u2'') 5 ''p2'' (Some ''c1'')]"

definition only_u1 :: criteria where
  "only_u1 = (window 0 2) \<lparr> salesperson_selected := [''u1''] \<rparr>"


text \<open>
  All five states, in neither stage nor alphabetical order; order 3 has two lines.
\<close>

definition funnel_facts :: "order_line list" where
  "funnel_facts =
     [fact 3 ''S3'' 0 ''sale'' ''A'' None 10 ''p'' None,
      fact 5 ''S5'' 1 ''cancel'' ''B'' None 20 ''p'' None,
      fact 1 ''S1'' 1 ''draft'' ''A'' None 30 ''q'' None,
      fact 3 ''S3'' 0 ''sale'' ''A'' None 15 ''q'' None,
      fact 4 ''S4'' 2 ''done'' ''C'' None 5 ''p'' None,
      fact 6 ''S6'' 2 ''sale'' ''B'' None 5 ''p'' None,
      fact 2 ''S2'' 3 ''sent'' ''C'' None 40 ''q'' None]"

text \<open>Two orders on the same day.\<close>

definition one_day_facts :: "order_line list" where
  "one_day_facts =
     [fact 1 ''S1'' 10 ''sale'' ''A'' None 60 ''p'' None,
      fact 2 ''S2'' 10 ''sale'' ''B'' None 40 ''p'' None]"

text \<open>
  Stand-ins for the two renderings that are not modelled, and rows that differ only in
  the salesperson: null in one, the empty string in the other. The third row has cells
  that must be quoted.
\<close>

definition plain_formatter :: formatter where
  "plain_formatter =
     \<lparr> str_date = (\<lambda>d. CHR ''d'' # str_int d),
       str_float = (\<lambda>q. str_int (floor q) @ ''.0'') \<rparr>"

definition null_salesperson_fact :: order_line where
  "null_salesperson_fact = fact 1 ''S1'' 0 ''sale'' ''A'' None 5 ''p'' None"

definition empty_salesperson_fact :: order_line where
  "empty_salesperson_fact = fact 1 ''S1'' 0 ''sale'' ''A'' (Some []) 5 ''p'' None"

definition quoted_fact :: order_line where
  "quoted_fact =
     fact 27 ''S,2'' 3 ''done'' [CHR ''A'', DQUOTE, LF, CHR ''B''] (Some ''u'') 12 ''p'' (Some ''c,d'')"

section \<open>Filtering\<close>

lemma isin_null_iff: "isin_null v vals \<longleftrightarrow> (\<exists>s \<in> set vals. v = Some s)"
  by (cases v) (auto simp: isin_null_def)

lemma filtered_df_eq_filter: "filtered_df c df = filter (spec_passes c) df"
proof -
  have "spec_passes c r \<longleftrightarrow>
          (date_mask c r
           \<and> (salesperson_selected c \<noteq> [] \<longrightarrow> isin_null (salesperson r) (salesperson_selected c))
           \<and> (customer_selected c \<noteq> [] \<longrightarrow> isin (customer r) (customer_selected c))
           \<and> (category_selected c \<noteq> [] \<longrightarrow> isin_null (category r) (category_selected c)))" for r
    by (simp add: spec_passes_def date_mask_def isin_null_iff isin_def)
  then show ?thesis
    by (auto simp: filtered_df_def Let_def intro!: filter_cong)
qed

lemma filtered_df_old_subseq: "subseq (filtered_df_old c df) df"
  by (simp add: filtered_df_old_def Let_def
      subseq_order.order_trans [OF subseq_filter_left subseq_filter_left])

text \<open>
  Claim C1. The total of the KPI row is the sum of \<open>price_total\<close> over exactly the rows
  of the fact table that pass the date window (both ends included) and every restriction
  whose selection is not empty (a null cell never passes); the filtered frame is that list
  of rows, each as often as it occurs.
\<close>

theorem total_sales_exact:
  "filtered_df c df = filter (spec_passes c) df
   \<and> total_sales (filtered_df c df) = sum_list (map price_total (filter (spec_passes c) df))"
  by (simp add: total_sales_def filtered_df_eq_filter)

theorem total_sales_exact_witness:
  "filtered_df only_u1 scenario_facts = [scenario_facts ! 0, scenario_facts ! 2]
   \<and> total_sales (filtered_df only_u1 scenario_facts) = 40"
proof -
  have e: "filter (spec_passes only_u1) scenario_facts = [scenario_facts ! 0, scenario_facts ! 2]"
    by (simp add: scenario_facts_def only_u1_def window_def spec_passes_def fact_def)
  have s: "sum_list (map price_total [scenario_facts ! 0, scenario_facts ! 2]) = 40"
    by (simp add: scenario_facts_def fact_def)
  have "filtered_df only_u1 scenario_facts = filter (spec_passes only_u1) scenario_facts"
    and "total_sales (filtered_df only_u1 scenario_facts)
          = sum_list (map price_total (filter (spec_passes only_u1) scenario_facts))"
    using total_sales_exact [of only_u1 scenario_facts] by blast+
  then show ?thesis by (simp only: e s)
qed

text \<open>
  Claim C10. Filtering only selects: the filtered frame of either version of the page is a
  subsequence of the fact table, so each of its rows is a row of the table with every
  field as it was, and the rows keep their relative order.
\<close>

theorem filter_selects_only:
  "subseq (filtered_df c df) df \<and> subseq (filtered_df_old c df) df"
  by (simp add: filtered_df_eq_filter filtered_df_old_subseq)

section \<open>KPI metrics\<close>

text \<open>
  Claim C5. The average order value is the total divided by the number of orders when
  there is an order, and 0 when there is none; the division is never reached with a zero
  divisor (the result is never the fault of \<open>truediv\<close>).
\<close>

theorem avg_order_value_exact:
  "(total_orders fdf > 0 \<longrightarrow>
      avg_order_value fdf = Inr (total_sales fdf / of_nat (total_orders fdf)))
   \<and> (total_orders fdf = 0 \<longrightarrow> avg_order_value fdf = Inr 0)"
  by (simp add: avg_order_value_def truediv_def)

theorem avg_order_value_exact_witness:
  "total_orders scenario_facts = 4 \<and> avg_order_value scenario_facts = Inr (65 / 4)
   \<and> total_orders [] = 0 \<and> avg_order_value [] = Inr 0"
proof -
  have n: "total_orders scenario_facts = 4"
    by (simp add: total_orders_def nunique_def scenario_facts_def fact_def)
  have s: "total_sales scenario_facts = 65"
    by (simp add: total_sales_def scenario_facts_def fact_def)
  have z: "total_orders [] = 0"
    by (simp add: total_orders_def nunique_def)
  from n s z avg_order_value_exact [of scenario_facts] avg_order_value_exact [of "[]"]
  show ?thesis by simp
qed

section \<open>Grouping\<close>

lemma series_min_Some:
  "xs \<noteq> [] \<Longrightarrow> \<exists>m. series_min xs = Some m \<and> m \<in> set xs \<and> (\<forall>y \<in> set xs. m \<le> y)"
proof (cases xs)
  case Nil
  assume "xs \<noteq> []" with Nil show ?thesis by simp
next
  case (Cons x ys)
  have "fold min ys x = Min (set (x # ys))" by (simp only: Min.set_eq_fold)
  moreover have "Min (set (x # ys)) \<in> set (x # ys)" by (rule Min_in) simp_all
  moreover have "\<forall>y \<in> set (x # ys). Min (set (x # ys)) \<le> y" by (simp del: set_simps)
  ultimately show ?thesis using Cons by (simp add: series_min_def del: set_simps)
qed


lemma groupby_length: "length (groupby key agg rows) = nunique (map key rows)"
  by (simp add: groupby_def nunique_def)

lemma groupby_entry:
  "(k, v) \<in> set (groupby key agg rows)
     \<longleftrightarrow> k \<in> key ` set rows \<and> v = agg (filter (\<lambda>r. key r = k) rows)"
  by (auto simp: groupby_def)

lemma groupby_Nil: "groupby key agg [] = []"
  by (simp add: groupby_def)

lemma new_customers_eq_total_customers:
  "new_customers c (filtered_df c df) = total_customers (filtered_df c df)"
proof -
  let ?fdf = "filtered_df c df"
  let ?g = "groupby customer (\<lambda>g. series_min (map order_date g)) ?fdf"
  have "ge_date m (start_date c)" if "(k, m) \<in> set ?g" for k m
  proof -
    from that have k: "k \<in> customer ` set ?fdf"
      and m: "m = series_min (map order_date (filter (\<lambda>r. customer r = k) ?fdf))"
      by (simp_all add: groupby_entry)
    let ?grp = "filter (\<lambda>r. customer r = k) ?fdf"
    from k have "map order_date ?grp \<noteq> []" by (auto simp: filter_empty_conv)
    then obtain d where d: "series_min (map order_date ?grp) = Some d"
        "d \<in> set (map order_date ?grp)"
      using series_min_Some by blast
    then obtain r where "r \<in> set ?fdf" "order_date r = d" by auto
    then have "start_date c \<le> d" by (auto simp: filtered_df_eq_filter spec_passes_def)
    with d m show ?thesis by (simp add: ge_date_def)
  qed
  then have "filter (\<lambda>(k, m). ge_date m (start_date c)) ?g = ?g"
    by (auto simp: filter_id_conv)
  then show ?thesis
    by (simp add: new_customers_def total_customers_def groupby_length)
qed

text \<open>
  Claim C6, evaluated on the code. With the window starting on day 1, customer A (rows on
  days 0, 1 and 2) has an order before the window, so only B is new; the page counts both,
  since it takes each customer's earliest date over the rows already cut to the window.
\<close>

theorem new_customers_counts_returning:
  "new_customers (window 1 2) (filtered_df (window 1 2) scenario_facts) = 2
   \<and> spec_new_customers (window 1 2) scenario_facts = 1"
  by code_simp

theorem new_customers_counts_returning_witness:
  "new_customers (window 1 2) (filtered_df (window 1 2) scenario_facts)
     \<noteq> spec_new_customers (window 1 2) scenario_facts"
  using new_customers_counts_returning by simp

section \<open>The empty filtered frame\<close>

lemma forecast_Nil: "forecast [] = Inl ValueError"
  by (simp add: forecast_def groupby_Nil day_number_def series_min_def fit_def)

text \<open>
  Claim C2, evaluated on the code. When the filter leaves no row, the sums, counts,
  rankings and the funnel are 0 or empty, but the regression refuses the empty sample: the
  forecast raises \<open>ValueError\<close>, and the render ends with it.
\<close>

theorem empty_set_faults:
  assumes "filtered_df c df = []"
  shows "total_sales (filtered_df c df) = 0
     \<and> total_orders (filtered_df c df) = 0
     \<and> avg_order_value (filtered_df c df) = Inr 0
     \<and> total_customers (filtered_df c df) = 0
     \<and> new_customers c (filtered_df c df) = 0
     \<and> daily_sales (filtered_df c df) = []
     \<and> top_customers (filtered_df c df) = []
     \<and> top_products (filtered_df c df) = []
     \<and> category_sales (filtered_df c df) = []
     \<and> salesperson_perf (filtered_df c df) = []
     \<and> funnel_df (filtered_df c df) = []
     \<and> forecast (filtered_df c df) = Inl ValueError
     \<and> render c df = Inl ValueError"
  unfolding assms render_def Let_def
  by (simp add: total_sales_def total_orders_def nunique_def avg_order_value_def
      total_customers_def new_customers_def groupby_Nil daily_sales_def top_customers_def
      top_products_def category_sales_def salesperson_perf_def funnel_df_def forecast_Nil
      head_def sort_values_desc_def sort_values_def groupby_dropna_def assms)

theorem empty_set_faults_witness:
  "filtered_df (window 2 0) scenario_facts = []
   \<and> avg_order_value (filtered_df (window 2 0) scenario_facts) = Inr 0
   \<and> render (window 2 0) scenario_facts = Inl ValueError"
proof -
  have e: "filtered_df (window 2 0) scenario_facts = []"
    by (simp add: filtered_df_eq_filter scenario_facts_def window_def spec_passes_def fact_def)
  from empty_set_faults [OF e] e show ?thesis by simp
qed

section \<open>Sales funnel\<close>

lemma sorted_key_unique:
  assumes "inj_on f (set xs)" "set xs = set ys" "distinct xs" "distinct ys"
    "sorted (map f xs)" "sorted (map f ys)"
  shows "xs = ys"
proof -
  have "distinct (map f xs)" "distinct (map f ys)"
    using assms by (simp_all add: distinct_map)
  moreover have "set (map f xs) = set (map f ys)" using assms by simp
  ultimately have "map f xs = map f ys"
    using assms(5,6) by (intro sorted_distinct_set_unique)
  moreover have "inj_on f (set xs \<union> set ys)" using assms by simp
  ultimately show ?thesis by (simp add: inj_on_map_eq_map)
qed

lemma index_of_nth: "v \<in> set xs \<Longrightarrow> xs ! index_of xs v = v"
  by (induction xs) auto

lemma index_of_inj: "inj_on (index_of xs) (set xs)"
  by (rule inj_onI) (metis index_of_nth)

lemma sorted_wrt_index_of:
  "distinct xs \<Longrightarrow> sorted_wrt (\<lambda>a b. index_of xs a \<le> index_of xs b) xs"
proof (induction xs)
  case Nil then show ?case by simp
next
  case (Cons x xs)
  then have "sorted_wrt (\<lambda>a b. index_of xs a \<le> index_of xs b) xs" by simp
  then have "sorted_wrt (\<lambda>a b. index_of (x # xs) a \<le> index_of (x # xs) b) xs"
    using Cons.prems by (auto elim!: sorted_wrt_mono_rel [rotated])
  then show ?case by simp
qed

lemma sorted_index_of_filter:
  "distinct xs \<Longrightarrow> sorted (map (index_of xs) (filter P xs))"
  by (simp add: sorted_map sorted_wrt_filter sorted_wrt_index_of)

lemma distinct_stage_order: "distinct stage_order"
  by (simp add: stage_order_def)

lemma funnel_df_stage_order:
  assumes "state ` set fdf \<subseteq> set stage_order"
  shows "funnel_df fdf =
           map (\<lambda>s. (Some s, card (order_id ` {r \<in> set fdf. state r = s})))
             (filter (\<lambda>s. s \<in> state ` set fdf) stage_order)"
proof -
  let ?cnt = "\<lambda>s. nunique (map order_id (filter (\<lambda>r. state r = s) fdf))"
  let ?G = "groupby state (\<lambda>g. nunique (map order_id g)) fdf"
  let ?C = "map (\<lambda>(s, n). (categorical stage_order s, n)) ?G"
  let ?g = "\<lambda>(s, n :: nat). category_code stage_order s"
  let ?L = "sort_key ?g ?C"
  let ?R = "map (\<lambda>s. (Some s, ?cnt s)) (filter (\<lambda>s. s \<in> state ` set fdf) stage_order)"
  have cnt: "?cnt s = card (order_id ` {r \<in> set fdf. state r = s})" for s
  proof -
    have "set (map order_id (filter (\<lambda>r. state r = s) fdf)) = order_id ` {r \<in> set fdf. state r = s}"
      by auto
    then show ?thesis by (simp add: nunique_def length_remdups_card_conv del: set_map set_filter)
  qed
  have G: "?G = map (\<lambda>k. (k, ?cnt k)) (sort (remdups (map state fdf)))"
    by (simp add: groupby_def)
  have C: "?C = map (\<lambda>k. (Some k, ?cnt k)) (sort (remdups (map state fdf)))"
    unfolding G using assms by (auto simp: categorical_def)
  have setC: "set ?C = (\<lambda>k. (Some k, ?cnt k)) ` (state ` set fdf)"
    unfolding C by simp
  have setR: "set ?R = (\<lambda>k. (Some k, ?cnt k)) ` (state ` set fdf)"
    using assms by auto
  have dC: "distinct ?C"
    unfolding C by (simp add: distinct_map inj_on_def)
  have dR: "distinct ?R"
    using distinct_stage_order by (simp add: distinct_map inj_on_def)
  have inj: "inj_on ?g (set ?L)"
  proof (rule inj_onI)
    fix a b assume a: "a \<in> set ?L" and b: "b \<in> set ?L" and e: "?g a = ?g b"
    from a obtain s where s: "a = (Some s, ?cnt s)" "s \<in> set stage_order"
      using assms unfolding set_sort setC by auto
    from b obtain t where t: "b = (Some t, ?cnt t)" "t \<in> set stage_order"
      using assms unfolding set_sort setC by auto
    from e s t have "index_of stage_order s = index_of stage_order t"
      by (simp add: category_code_def)
    with s t have "s = t" using index_of_inj [of stage_order] by (auto dest: inj_onD)
    with s t show "a = b" by simp
  qed
  have sR: "sorted (map ?g ?R)"
  proof -
    have "map ?g ?R = map (index_of stage_order) (filter (\<lambda>s. s \<in> state ` set fdf) stage_order)"
      by (simp add: comp_def category_code_def)
    then show ?thesis by (simp only: sorted_index_of_filter [OF distinct_stage_order])
  qed
  have "?L = ?R"
  proof (rule sorted_key_unique [where f = ?g])
    show "inj_on ?g (set ?L)" by (rule inj)
    show "set ?L = set ?R" unfolding set_sort setC setR ..
    show "distinct ?L" using dC by simp
    show "distinct ?R" by (rule dR)
    show "sorted (map ?g ?L)" by (rule sorted_sort_key)
    show "sorted (map ?g ?R)" by (rule sR)
  qed
  then show ?thesis
    by (simp add: funnel_df_def Let_def sort_values_def cnt)
qed

text \<open>
  Claim C8. With the states the query admits, the funnel has one row per state present,
  in the order draft, sent, sale, done, cancel, each with the number of distinct
  \<open>order_id\<close> of that state; states that do not occur have no row. A frame whose states
  are sale and draft gives draft, then sale; a frame with all five gives draft, sent, sale,
  done, cancel, which is neither the alphabetical order nor the order of the rows.
\<close>

theorem funnel_fixed_order:
  assumes "state ` set fdf \<subseteq> {''draft'', ''sent'', ''sale'', ''done'', ''cancel''}"
  shows "funnel_df fdf =
           map (\<lambda>s. (Some s, card (order_id ` {r \<in> set fdf. state r = s})))
             (filter (\<lambda>s. s \<in> state ` set fdf)
                [''draft'', ''sent'', ''sale'', ''done'', ''cancel''])
     \<and> (state ` set fdf = {''sale'', ''draft''} \<longrightarrow>
          map fst (funnel_df fdf) = [Some ''draft'', Some ''sale''])
     \<and> (state ` set fdf = {''sale'', ''sent''} \<longrightarrow>
          map fst (funnel_df fdf) = [Some ''sent'', Some ''sale''])
     \<and> (state ` set fdf = {''cancel'', ''done'', ''draft'', ''sale'', ''sent''} \<longrightarrow>
          map fst (funnel_df fdf)
            = [Some ''draft'', Some ''sent'', Some ''sale'', Some ''done'', Some ''cancel''])"
proof -
  have sub: "state ` set fdf \<subseteq> set stage_order"
    using assms by (simp add: stage_order_def)
  have main: "funnel_df fdf =
           map (\<lambda>s. (Some s, card (order_id ` {r \<in> set fdf. state r = s})))
             (filter (\<lambda>s. s \<in> state ` set fdf)
                [''draft'', ''sent'', ''sale'', ''done'', ''cancel''])"
    using funnel_df_stage_order [OF sub] by (simp only: stage_order_def)
  have two: "map fst (funnel_df fdf) = [Some ''draft'', Some ''sale'']"
    if "state ` set fdf = {''sale'', ''draft''}"
    unfolding main that by (simp add: comp_def)
  have two': "map fst (funnel_df fdf) = [Some ''sent'', Some ''sale'']"
    if "state ` set fdf = {''sale'', ''sent''}"
    unfolding main that by (simp add: comp_def)
  have five: "map fst (funnel_df fdf)
            = [Some ''draft'', Some ''sent'', Some ''sale'', Some ''done'', Some ''cancel'']"
    if "state ` set fdf = {''cancel'', ''done'', ''draft'', ''sale'', ''sent''}"
    unfolding main that by (simp add: comp_def)
  from main two two' five show ?thesis by blast
qed

theorem funnel_fixed_order_witness:
  "state ` set funnel_facts \<subseteq> {''draft'', ''sent'', ''sale'', ''done'', ''cancel''}
   \<and> funnel_df funnel_facts
       = [(Some ''draft'', 1), (Some ''sent'', 1), (Some ''sale'', 2), (Some ''done'', 1),
          (Some ''cancel'', 1)]"
proof -
  have h: "state ` set funnel_facts \<subseteq> {''draft'', ''sent'', ''sale'', ''done'', ''cancel''}"
    by (simp add: funnel_facts_def fact_def)
  have "map (\<lambda>s. (Some s, card (order_id ` {r \<in> set funnel_facts. state r = s})))
             (filter (\<lambda>s. s \<in> state ` set funnel_facts)
                [''draft'', ''sent'', ''sale'', ''done'', ''cancel''])
         = [(Some ''draft'', 1), (Some ''sent'', 1), (Some ''sale'', 2), (Some ''done'', 1),
            (Some ''cancel'', 1)]"
    by code_simp
  with funnel_fixed_order [OF h] h show ?thesis by simp
qed

section \<open>Top-10 rankings\<close>













section \<open>Forecast\<close>

lemma series_max_Some:
  "xs \<noteq> [] \<Longrightarrow> series_max xs = Some (Max (set xs))"
  by (cases xs) (simp_all add: series_max_def Max.set_eq_fold del: set_simps)

lemma series_min_Min:
  "xs \<noteq> [] \<Longrightarrow> series_min xs = Some (Min (set xs))"
  by (cases xs) (simp_all add: series_min_def Min.set_eq_fold del: set_simps)

lemma last_sort_Max:
  fixes xs :: "int list"
  assumes "xs \<noteq> []"
  shows "last (sort xs) = Max (set xs)"
proof -
  have ne: "sort xs \<noteq> []" using assms by (metis length_0_conv length_sort)
  have "last (sort xs) \<in> set xs" using last_in_set [OF ne] by simp
  moreover have "y \<le> last (sort xs)" if "y \<in> set xs" for y
  proof -
    from that have "y \<in> set (sort xs)" by simp
    then obtain i where i: "i < length (sort xs)" "sort xs ! i = y" by (metis in_set_conv_nth)
    have "sort xs ! i \<le> sort xs ! (length (sort xs) - 1)"
      by (rule sorted_nth_mono) (use i in auto)
    with i ne show ?thesis by (simp add: last_conv_nth)
  qed
  ultimately show ?thesis by (intro Max_eqI [symmetric]) auto
qed

lemma forecast_unfold:
  assumes "fdf \<noteq> []"
  defines "X \<equiv> map (spec_day_index fdf) (spec_dates fdf)"
    and "y \<equiv> map (spec_daily_sum fdf) (spec_dates fdf)"
  shows "forecast fdf =
     (case fit X y of
        Inl e \<Rightarrow> Inl e
      | Inr m \<Rightarrow>
          Inr \<lparr> model = m,
                days = [spec_last_index fdf + 1 .. spec_last_index fdf + 30],
                forecast_df = zip [Max (order_date ` set fdf) + 1 .. Max (order_date ` set fdf) + 30]
                    (predict m [spec_last_index fdf + 1 .. spec_last_index fdf + 30]) \<rparr>)"
proof -
  let ?ds = "spec_dates fdf"
  let ?daily = "groupby order_date sum_price_total fdf"
  have setds: "set ?ds = order_date ` set fdf" by (simp add: spec_dates_def)
  then have "set ?ds \<noteq> {}" using assms(1) by simp
  then have ne: "?ds \<noteq> []" by auto
  have daily: "?daily = map (\<lambda>d. (d, spec_daily_sum fdf d)) ?ds"
    by (simp add: groupby_def spec_dates_def spec_daily_sum_def sum_price_total_def)
  have keys: "map fst ?daily = ?ds" by (simp add: daily comp_def)
  have dn: "day_number ?daily = X"
    unfolding day_number_def keys series_min_Min [OF ne]
    by (simp add: daily X_def comp_def spec_day_index_def setds)
  have yy: "map snd ?daily = y" by (simp add: daily y_def comp_def)
  have Xne: "X \<noteq> []" using ne by (simp add: X_def)
  have "last X = spec_day_index fdf (last ?ds)" using ne by (simp add: X_def last_map)
  also have "last ?ds = Max (order_date ` set fdf)"
    unfolding spec_dates_def using last_sort_Max [of "remdups (map order_date fdf)"] assms(1)
    by simp
  finally have lastX: "last X = spec_last_index fdf"
    by (simp add: spec_day_index_def spec_last_index_def)
  have fd: "future_days X = Inr [spec_last_index fdf + 1 .. spec_last_index fdf + 30]"
    using Xne by (simp add: future_days_def lastX)
  have fdates: "forecast_dates ?daily
        = Inr [Max (order_date ` set fdf) + 1 .. Max (order_date ` set fdf) + 30]"
    unfolding forecast_dates_def keys series_max_Some [OF ne] by (simp add: setds)
  show ?thesis
    unfolding forecast_def Let_def dn yy fd fdates by (simp split: sum.splits)
qed


text \<open>
  Claim C4 as stated fails: with a single order date the forecast is not skipped and no
  condition is signalled; a flat line is fitted and charted.
\<close>

theorem single_date_forecast_not_skipped:
  "nunique (map order_date one_day_facts) < 2
   \<and> forecast one_day_facts
       = Inr \<lparr> model = (100, 0), days = [1 .. 30], forecast_df = zip [11 .. 40] (replicate 30 100) \<rparr>"
  by code_simp

text \<open>
  Claim C4, as the code has it. With exactly one distinct order date the regression runs
  on the single observation: the slope is 0, the intercept is the total of that date, and
  the forecast is that total on each of the 30 following days. Nothing is raised.
\<close>

theorem single_date_flat_forecast:
  assumes "nunique (map order_date fdf) = 1"
  shows "forecast fdf
         = Inr \<lparr> model = (total_sales fdf, 0),
                 days = [1 .. 30],
                 forecast_df = zip [order_date (hd fdf) + 1 .. order_date (hd fdf) + 30]
                                 (replicate 30 (total_sales fdf)) \<rparr>"
proof -
  let ?d = "order_date (hd fdf)"
  from assms obtain x where x: "remdups (map order_date fdf) = [x]"
    by (auto simp: nunique_def length_Suc_conv)
  then have "set (remdups (map order_date fdf)) = {x}" by (simp del: set_remdups)
  then have img: "order_date ` set fdf = {x}" by simp
  then have ne: "fdf \<noteq> []" by auto
  then have "?d \<in> order_date ` set fdf" by simp
  with img have xd: "x = ?d" by simp
  have all: "order_date r = ?d" if "r \<in> set fdf" for r
    using that img xd by auto
  have ds: "spec_dates fdf = [?d]" by (simp add: spec_dates_def x xd)
  have idx: "spec_day_index fdf ?d = 0" by (simp add: spec_day_index_def img xd)
  have "filter (\<lambda>r. order_date r = ?d) fdf = fdf" using all by (simp add: filter_id_conv)
  then have sm: "spec_daily_sum fdf ?d = total_sales fdf"
    by (simp add: spec_daily_sum_def total_sales_def)
  have li: "spec_last_index fdf = 0" by (simp add: spec_last_index_def img)
  have mx: "Max (order_date ` set fdf) = ?d" by (simp add: img xd)
  have ft: "fit [0] [total_sales fdf] = Inr (total_sales fdf, 0)"
    by (simp add: fit_def mean_def)
  have pr: "predict (total_sales fdf, 0) [1 .. 30] = replicate 30 (total_sales fdf)"
    by (simp add: predict_def map_replicate_const)
  show ?thesis
    unfolding forecast_unfold [OF ne] ds by (simp add: idx sm li mx ft pr)
qed

theorem single_date_flat_forecast_witness:
  "nunique (map order_date one_day_facts) = 1
   \<and> total_sales one_day_facts = 100
   \<and> forecast one_day_facts
       = Inr \<lparr> model = (100, 0), days = [1 .. 30], forecast_df = zip [11 .. 40] (replicate 30 100) \<rparr>"
proof -
  have h: "nunique (map order_date one_day_facts) = 1" by code_simp
  have t: "total_sales one_day_facts = 100" by code_simp
  have d: "order_date (hd one_day_facts) = 10" by code_simp
  from single_date_flat_forecast [OF h] h t d show ?thesis by simp
qed


section \<open>CSV export\<close>

lemma chars_distinct: "COMMA \<noteq> DQUOTE" "COMMA \<noteq> LF" "DQUOTE \<noteq> LF"
  by (simp_all add: COMMA_def DQUOTE_def LF_def)

lemma reader_unquoted:
  "\<not> needs_quote f \<Longrightarrow> reader InField cur row (f @ rest) = reader InField (rev f @ cur) row rest"
  by (induction f arbitrary: cur) (simp_all add: needs_quote_def)

lemma reader_quoted:
  "reader InQuoted cur row (escape f @ DQUOTE # rest) = reader QuoteInQuoted (rev f @ cur) row rest"
  by (induction f arbitrary: cur) simp_all

lemma reader_field_comma:
  "reader StartField [] row (quote_field f @ COMMA # rest) = reader StartField [] (f # row) rest"
proof (cases "needs_quote f")
  case True
  then show ?thesis using chars_distinct by (simp add: quote_field_def reader_quoted)
next
  case False
  show ?thesis
  proof (cases f)
    case Nil
    then show ?thesis using False chars_distinct by (simp add: quote_field_def)
  next
    case (Cons c f')
    with False have c: "c \<noteq> COMMA" "c \<noteq> DQUOTE" "c \<noteq> LF" and f': "\<not> needs_quote f'"
      by (auto simp: needs_quote_def)
    show ?thesis
      using False c chars_distinct by (simp add: quote_field_def Cons reader_unquoted [OF f'])
  qed
qed

lemma reader_field_lf:
  "reader StartField [] row (quote_field f @ LF # rest)
     = rev (f # row) # reader StartRecord [] [] rest"
proof (cases "needs_quote f")
  case True
  then show ?thesis using chars_distinct by (simp add: quote_field_def reader_quoted)
next
  case False
  show ?thesis
  proof (cases f)
    case Nil
    then show ?thesis using False chars_distinct by (simp add: quote_field_def)
  next
    case (Cons c f')
    with False have c: "c \<noteq> COMMA" "c \<noteq> DQUOTE" "c \<noteq> LF" and f': "\<not> needs_quote f'"
      by (auto simp: needs_quote_def)
    show ?thesis
      using False c chars_distinct by (simp add: quote_field_def Cons reader_unquoted [OF f'])
  qed
qed

lemma reader_first_field:
  "reader StartRecord [] [] (quote_field f @ COMMA # rest) = reader StartField [] [f] rest"
proof (cases "needs_quote f")
  case True
  then show ?thesis using chars_distinct by (simp add: quote_field_def reader_quoted)
next
  case False
  show ?thesis
  proof (cases f)
    case Nil
    then show ?thesis using False chars_distinct by (simp add: quote_field_def)
  next
    case (Cons c f')
    with False have c: "c \<noteq> COMMA" "c \<noteq> DQUOTE" "c \<noteq> LF" and f': "\<not> needs_quote f'"
      by (auto simp: needs_quote_def)
    show ?thesis
      using False c chars_distinct by (simp add: quote_field_def Cons reader_unquoted [OF f'])
  qed
qed

lemma reader_rest_of_row:
  "reader StartField [] row (write_row (f # fs) @ rest)
     = (rev row @ f # fs) # reader StartRecord [] [] rest"
proof (induction fs arbitrary: f row)
  case Nil
  then show ?case by (simp add: reader_field_lf)
next
  case (Cons g fs)
  then show ?case by (simp add: reader_field_comma)
qed

lemma reader_row:
  "reader StartRecord [] [] (write_row (f # g # fs) @ rest)
     = (f # g # fs) # reader StartRecord [] [] rest"
  by (simp add: reader_first_field reader_rest_of_row)

lemma reader_rows:
  "\<forall>r \<in> set rows. 2 \<le> length r \<Longrightarrow>
   reader StartRecord [] [] (concat (map write_row rows) @ rest)
     = rows @ reader StartRecord [] [] rest"
proof (induction rows)
  case Nil then show ?case by simp
next
  case (Cons r rows)
  then obtain f g fs where r: "r = f # g # fs"
    by (cases r; cases "tl r") auto
  with Cons show ?case by (simp add: reader_row del: write_row.simps)
qed

text \<open>
  Claim C9, as the code has it. Reading the export back gives the header, which is the
  list of the columns in the order of the frame, followed by one row per row of the
  filtered frame, each with its ten cell texts as they were written: the row count and
  the field order are kept, and so is every field value as far as its text determines it.
\<close>

theorem csv_round_trip:
  "read_csv (to_csv fmt fdf) = columns # map (cells fmt) fdf
   \<and> length (read_csv (to_csv fmt fdf)) = 1 + length fdf"
proof -
  have "\<forall>r \<in> set (columns # map (cells fmt) fdf). 2 \<le> length r"
    by (auto simp: columns_def cells_def)
  from reader_rows [OF this, of "[]"] show ?thesis
    by (simp add: read_csv_def to_csv_def)
qed

theorem csv_round_trip_witness:
  "read_csv (to_csv plain_formatter [null_salesperson_fact, quoted_fact])
     = [columns,
        [''1'', ''S1'', ''d0'', ''sale'', ''A'', [], ''1.0'', ''5.0'', ''p'', []],
        [''27'', ''S,2'', ''d3'', ''done'', [CHR ''A'', DQUOTE, LF, CHR ''B''], ''u'',
         ''1.0'', ''12.0'', ''p'', ''c,d'']]"
proof -
  have "map (cells plain_formatter) [null_salesperson_fact, quoted_fact]
     = [[''1'', ''S1'', ''d0'', ''sale'', ''A'', [], ''1.0'', ''5.0'', ''p'', []],
        [''27'', ''S,2'', ''d3'', ''done'', [CHR ''A'', DQUOTE, LF, CHR ''B''], ''u'',
         ''1.0'', ''12.0'', ''p'', ''c,d'']]"
    by code_simp
  with csv_round_trip [of plain_formatter "[null_salesperson_fact, quoted_fact]"]
  show ?thesis by simp
qed

text \<open>
  Claim C9 as stated fails: a null salesperson and an empty one are written alike, so
  the two frames have the same export and no reader can give back the field value of
  both.
\<close>

theorem csv_conflates_null_and_empty:
  "to_csv plain_formatter [null_salesperson_fact] = to_csv plain_formatter [empty_salesperson_fact]
   \<and> salesperson null_salesperson_fact \<noteq> salesperson empty_salesperson_fact"
  by code_simp

end
